theory Spec2Isabelle
  imports Complex_Main "HOL-Library.Sublist"
begin

section \<open>JavaScript strings\<close>

text \<open>
  A JavaScript string is modelled as a \<^typ>\<open>string\<close>: one \<^typ>\<open>char\<close> stands for one
  code unit. The three characters that cannot be written inside a string literal here
  get names.
\<close>

abbreviation bslash :: char where "bslash \<equiv> CHR 0x5C"
abbreviation dquote :: char where "dquote \<equiv> CHR 0x22"
abbreviation squote :: char where "squote \<equiv> CHR 0x27"

text \<open>\<^verbatim>\<open>s.includes(t)\<close>: \<open>t\<close> occurs in \<open>s\<close> as a contiguous run of code units.\<close>

fun includes_str :: "string \<Rightarrow> string \<Rightarrow> bool" where
  "includes_str [] t = (t = [])"
| "includes_str (c # cs) t = (prefix t (c # cs) \<or> includes_str cs t)"

text \<open>\<^verbatim>\<open>xs.join(sep)\<close> on an array of strings.\<close>

fun join :: "string \<Rightarrow> string list \<Rightarrow> string" where
  "join sep [] = []"
| "join sep [x] = x"
| "join sep (x # y # ys) = x @ sep @ join sep (y # ys)"

section \<open>Regular expressions\<close>

text \<open>
  The regular expression literals of \<^verbatim>\<open>util.ts\<close> are written as terms of the
  following type. \<open>OneOf\<close> and \<open>NoneOf\<close> are the character classes \<^verbatim>\<open>[...]\<close> and
  \<^verbatim>\<open>[^...]\<close>, \<open>Bol\<close> and \<open>Eol\<close> the assertions \<^verbatim>\<open>^\<close> and \<^verbatim>\<open>$\<close> (no
  \<^verbatim>\<open>m\<close> flag is used anywhere), \<open>Star\<close> the greedy \<^verbatim>\<open>*\<close> and \<open>Group n\<close> the
  \<open>n\<close>-th capturing parenthesis.
\<close>

datatype regex =
    Empty
  | Chr char
  | OneOf "char list"
  | NoneOf "char list"
  | Bol
  | Eol
  | Seq regex regex
  | Alt regex regex
  | Star regex
  | Group nat regex

text \<open>\<^verbatim>\<open>r+\<close> is one \<open>r\<close> followed by \<^verbatim>\<open>r*\<close>.\<close>

abbreviation Plus :: "regex \<Rightarrow> regex" where
  "Plus r \<equiv> Seq r (Star r)"

text \<open>\<^verbatim>\<open>.\<close> matches every code unit but a line terminator; \<^verbatim>\<open>\w\<close> is
  \<^verbatim>\<open>[A-Za-z0-9_]\<close>.\<close>

abbreviation AnyChar :: regex where
  "AnyChar \<equiv> NoneOf [CHR 0x0A, CHR 0x0D]"

definition word_chars :: "char list" where
  "word_chars = ''abcdefghijklmnopqrstuvwxyzABCDEFGHIJKLMNOPQRSTUVWXYZ0123456789_''"

text \<open>Captures: the text of each capturing group that took part in the match.\<close>

type_synonym captures = "(nat \<times> string) list"

fun groups :: "regex \<Rightarrow> nat list" where
  "groups (Seq a b) = groups a @ groups b"
| "groups (Alt a b) = groups a @ groups b"
| "groups (Star a) = groups a"
| "groups (Group n a) = n # groups a"
| "groups r = []"

definition reset :: "nat list \<Rightarrow> captures \<Rightarrow> captures" where
  "reset ns g = filter (\<lambda>(k, v). k \<notin> set ns) g"

definition capture :: "nat \<Rightarrow> string \<Rightarrow> captures \<Rightarrow> captures" where
  "capture n v g = (n, v) # filter (\<lambda>(k, w). k \<noteq> n) g"

text \<open>
  The backtracking matcher of the language standard. \<open>rmatch r (i, s, g)\<close> matches \<open>r\<close>
  at index \<open>i\<close> of the input, \<open>s\<close> being the input from index \<open>i\<close> on and \<open>g\<close> the
  captures so far. It returns every way to match, in the order in which backtracking
  tries them: the end index, the rest of the input and the captures. The match the engine
  reports is the head of the list. As in the standard, \<open>Star\<close> prefers one more iteration,
  forgets the captures of its body at each iteration, and refuses an iteration that
  consumes nothing.
\<close>

type_synonym mstate = "nat \<times> string \<times> captures"

fun rmatch :: "regex \<Rightarrow> mstate \<Rightarrow> mstate list" where
  "rmatch Empty (i, s, g) = [(i, s, g)]"
| "rmatch (Chr c) (i, s, g) =
     (case s of [] \<Rightarrow> [] | x # xs \<Rightarrow> if x = c then [(Suc i, xs, g)] else [])"
| "rmatch (OneOf cs) (i, s, g) =
     (case s of [] \<Rightarrow> [] | x # xs \<Rightarrow> if x \<in> set cs then [(Suc i, xs, g)] else [])"
| "rmatch (NoneOf cs) (i, s, g) =
     (case s of [] \<Rightarrow> [] | x # xs \<Rightarrow> if x \<notin> set cs then [(Suc i, xs, g)] else [])"
| "rmatch Bol (i, s, g) = (if i = 0 then [(i, s, g)] else [])"
| "rmatch Eol (i, s, g) = (if s = [] then [(i, s, g)] else [])"
| "rmatch (Seq a b) (i, s, g) = concat (map (rmatch b) (rmatch a (i, s, g)))"
| "rmatch (Alt a b) (i, s, g) = rmatch a (i, s, g) @ rmatch b (i, s, g)"
| "rmatch (Star a) (i, s, g) =
     concat (map (rmatch (Star a))
               (filter (\<lambda>(j, t, h). length t < length s)
                  (rmatch a (i, s, reset (groups a) g))))
     @ [(i, s, g)]"
| "rmatch (Group n a) (i, s, g) =
     map (\<lambda>(j, t, h). (j, t, capture n (take (j - i) s) h)) (rmatch a (i, s, g))"

text \<open>
  The replacement text of \<^verbatim>\<open>String.prototype.replace\<close> (GetSubstitution of the
  standard): \<open>matched\<close> is the matched text, \<open>pre\<close> and \<open>post\<close> the input before and
  after it, \<open>g\<close> the captures and \<open>m\<close> the number of capturing groups of the pattern.
  \<^verbatim>\<open>$$\<close> stands for a dollar sign, \<^verbatim>\<open>$&\<close> for the matched text, \<^verbatim>\<open>$`\<close> and
  \<^verbatim>\<open>$'\<close> for the input before and after the match, \<^verbatim>\<open>$n\<close> and \<^verbatim>\<open>$nn\<close> for a
  capture (the empty string when the group took no part in the match); a dollar sign
  followed by anything else, or by the number of a group that the pattern does not have,
  stands for itself.
\<close>

definition is_digit :: "char \<Rightarrow> bool" where
  "is_digit c = (c \<in> set ''0123456789'')"

definition digit_val :: "char \<Rightarrow> nat" where
  "digit_val c = of_char c - 48"

definition group_text :: "captures \<Rightarrow> nat \<Rightarrow> string" where
  "group_text g n = (case map_of g n of None \<Rightarrow> [] | Some v \<Rightarrow> v)"

fun getSubstitution :: "string \<Rightarrow> string \<Rightarrow> string \<Rightarrow> captures \<Rightarrow> nat \<Rightarrow> string \<Rightarrow> string" where
  "getSubstitution matched pre post g m [] = []"
| "getSubstitution matched pre post g m [c] = [c]"
| "getSubstitution matched pre post g m (c # d # ds) =
     (if c \<noteq> CHR ''$'' then c # getSubstitution matched pre post g m (d # ds)
      else if d = CHR ''$'' then CHR ''$'' # getSubstitution matched pre post g m ds
      else if d = CHR ''&'' then matched @ getSubstitution matched pre post g m ds
      else if d = CHR 0x60 then pre @ getSubstitution matched pre post g m ds
      else if d = squote then post @ getSubstitution matched pre post g m ds
      else if is_digit d then
        (case ds of
           [] \<Rightarrow>
             (if 1 \<le> digit_val d \<and> digit_val d \<le> m then group_text g (digit_val d)
              else [c, d])
         | e # es \<Rightarrow>
             (if is_digit e \<and> 10 * digit_val d + digit_val e \<le> m then
                (if 1 \<le> 10 * digit_val d + digit_val e
                 then group_text g (10 * digit_val d + digit_val e)
                 else [c, d, e])
                @ getSubstitution matched pre post g m es
              else
                (if 1 \<le> digit_val d \<and> digit_val d \<le> m then group_text g (digit_val d)
                 else [c, d])
                @ getSubstitution matched pre post g m (e # es)))
      else c # getSubstitution matched pre post g m (d # ds))"

text \<open>
  \<^verbatim>\<open>str.replace(re, what)\<close> for a regular expression with the \<^verbatim>\<open>g\<close> flag. The input
  is scanned from the left; \<open>pre\<close> is the input before the current index and \<open>s\<close> the
  input from it on. Where the pattern matches, the substitution is emitted and the scan
  goes on behind the match; after an empty match the index advances by one code unit,
  which is copied. Where it does not match, the code unit is copied.
\<close>

fun replace_g :: "regex \<Rightarrow> string \<Rightarrow> string \<Rightarrow> string \<Rightarrow> string" where
  "replace_g r what pre s =
     (case rmatch r (length pre, s, []) of
        [] \<Rightarrow> (case s of [] \<Rightarrow> [] | c # cs \<Rightarrow> c # replace_g r what (pre @ [c]) cs)
      | (j, t, h) # _ \<Rightarrow>
          getSubstitution (take (length s - length t) s) pre t h (length (groups r)) what
          @ (if length t < length s
             then replace_g r what (pre @ take (length s - length t) s) t
             else (case s of [] \<Rightarrow> [] | c # cs \<Rightarrow> c # replace_g r what (pre @ [c]) cs)))"

text \<open>\<^verbatim>\<open>str.replace(re, what)\<close> without the \<^verbatim>\<open>g\<close> flag: the first match only.\<close>

fun replace_first :: "regex \<Rightarrow> string \<Rightarrow> string \<Rightarrow> string \<Rightarrow> string" where
  "replace_first r what pre s =
     (case rmatch r (length pre, s, []) of
        [] \<Rightarrow> (case s of [] \<Rightarrow> [] | c # cs \<Rightarrow> c # replace_first r what (pre @ [c]) cs)
      | (j, t, h) # _ \<Rightarrow>
          getSubstitution (take (length s - length t) s) pre t h (length (groups r)) what @ t)"

text \<open>\<^verbatim>\<open>str.match(re)\<close> with the \<^verbatim>\<open>g\<close> flag: the matched texts, from left to
  right. JavaScript returns \<^verbatim>\<open>null\<close> where this list is empty.\<close>

fun match_g :: "regex \<Rightarrow> string \<Rightarrow> string \<Rightarrow> string list" where
  "match_g r pre s =
     (case rmatch r (length pre, s, []) of
        [] \<Rightarrow> (case s of [] \<Rightarrow> [] | c # cs \<Rightarrow> match_g r (pre @ [c]) cs)
      | (j, t, h) # _ \<Rightarrow>
          take (length s - length t) s
          # (if length t < length s
             then match_g r (pre @ take (length s - length t) s) t
             else (case s of [] \<Rightarrow> [] | c # cs \<Rightarrow> match_g r (pre @ [c]) cs)))"

text \<open>\<^verbatim>\<open>str.replace(pat, what)\<close> for a string \<open>pat\<close>: the first occurrence only.\<close>

fun replace_str :: "string \<Rightarrow> string \<Rightarrow> string \<Rightarrow> string \<Rightarrow> string" where
  "replace_str pat what pre [] =
     (if pat = [] then getSubstitution [] pre [] [] 0 what else [])"
| "replace_str pat what pre (c # cs) =
     (if prefix pat (c # cs)
      then getSubstitution pat pre (drop (length pat) (c # cs)) [] 0 what
           @ drop (length pat) (c # cs)
      else c # replace_str pat what (pre @ [c]) cs)"

text \<open>The scanning functions are unfolded by hand in proofs, and so is \<open>Star\<close>.\<close>

declare replace_g.simps [simp del] replace_first.simps [simp del] match_g.simps [simp del]

lemmas rmatch_Star = rmatch.simps(9)

declare rmatch_Star [simp del]

text \<open>
  \<^verbatim>\<open>new RegExp(pattern, 'g')\<close>, for the patterns that stand for a fixed text: a
  pattern character stands for itself, and so does a character other than a letter or a
  digit behind a backslash (an identity escape). The constructor is not modelled beyond
  that: \<open>RegExp\<close> is \<open>None\<close> where the pattern holds a syntax character
  (\<^verbatim>\<open>^ $ \ . * + ? ( ) [ ] { } |\<close>) that is not escaped, a backslash before a letter
  or a digit (a class escape, a control escape or a back reference), or a backslash at
  its end (a syntax error).
\<close>

definition syntax_chars :: "char list" where
  "syntax_chars = ''^$.*+?()[]{}|'' @ [bslash]"

definition identity_escape :: "char \<Rightarrow> bool" where
  "identity_escape d = (d \<notin> set ''abcdefghijklmnopqrstuvwxyzABCDEFGHIJKLMNOPQRSTUVWXYZ0123456789'')"

fun pattern_text :: "string \<Rightarrow> string option" where
  "pattern_text [] = Some []"
| "pattern_text [c] = (if c \<in> set syntax_chars then None else Some [c])"
| "pattern_text (c # d # ds) =
     (if c = bslash then
        (if identity_escape d then map_option ((#) d) (pattern_text ds) else None)
      else if c \<in> set syntax_chars then None
      else map_option ((#) c) (pattern_text (d # ds)))"

fun literal :: "string \<Rightarrow> regex" where
  "literal [] = Empty"
| "literal (c # cs) = Seq (Chr c) (literal cs)"

definition RegExp :: "string \<Rightarrow> regex option" where
  "RegExp pattern = map_option literal (pattern_text pattern)"

section \<open>Text utilities\<close>

text \<open>
  \<^verbatim>\<open>str.replace(/([.*+?^=!:${}()|\[\]\/\\])/g, '\\$1')\<close>: the pattern is one
  capturing group around a character class, the replacement a backslash followed by
  \<^verbatim>\<open>$1\<close>.
\<close>

definition escaped_chars :: "char list" where
  "escaped_chars = ''.*+?^=!:${}()|[]/'' @ [bslash]"

definition escapeStringForRegex :: "string \<Rightarrow> string" where
  "escapeStringForRegex str =
     replace_g (Group 1 (OneOf escaped_chars)) [bslash, CHR ''$'', CHR ''1''] [] str"

text \<open>
  \<open>replaceAll\<close> builds a regular expression from the escaped needle; the result is
  \<open>None\<close> where the constructor does not return one.
\<close>

definition replaceAll :: "string \<Rightarrow> string \<Rightarrow> string \<Rightarrow> string option" where
  "replaceAll str needle what =
     (case RegExp (escapeStringForRegex needle) of
        None \<Rightarrow> None
      | Some re \<Rightarrow> Some (replace_g re what [] str))"

definition removeAllPatterns :: "string \<Rightarrow> string list \<Rightarrow> string option" where
  "removeAllPatterns str patterns =
     foldl (\<lambda>acc needle. case acc of None \<Rightarrow> None | Some a \<Rightarrow> replaceAll a needle [])
       (Some str) patterns"

text \<open>
  What \<open>replaceAll\<close> is meant to compute, written without regular expressions: the
  occurrences of the needle are found from left to right and do not overlap; the empty
  needle occurs before every code unit and at the end.
\<close>

function literal_replace :: "string \<Rightarrow> string \<Rightarrow> string \<Rightarrow> string" where
  "literal_replace needle what [] = (if needle = [] then what else [])"
| "literal_replace needle what (c # cs) =
     (if needle = [] then what @ c # literal_replace needle what cs
      else if prefix needle (c # cs)
      then what @ literal_replace needle what (drop (length needle) (c # cs))
      else c # literal_replace needle what cs)"
  by pat_completeness auto
termination
  by (relation "measure (\<lambda>(needle, what, s). length s)") auto

text \<open>The escaping of one character, as \<open>escapeStringForRegex\<close> is meant to do it.\<close>

definition esc :: "char \<Rightarrow> string" where
  "esc c = (if c \<in> set escaped_chars then [bslash, c] else [c])"

section \<open>Path normalizer\<close>

text \<open>
  What \<open>normalizePath\<close> takes from the host: \<^verbatim>\<open>process.platform === 'win32'\<close>,
  \<^verbatim>\<open>path.sep\<close>, \<^verbatim>\<open>path.normalize\<close>, \<^verbatim>\<open>path.basename\<close> and the case folding
  \<^verbatim>\<open>toLocaleLowerCase().normalize()\<close>. \<^verbatim>\<open>path.posix.sep\<close> is the slash.
\<close>

record platform =
  win32 :: bool
  sep :: char
  path_normalize :: "string \<Rightarrow> string"
  path_basename :: "string \<Rightarrow> string"
  toLocaleLowerCase :: "string \<Rightarrow> string"

text \<open>
  The two loops of \<open>normalizePath\<close>. The first replaces one separator per iteration
  (\<^verbatim>\<open>replace\<close> with a string pattern), the second collapses double slashes with
  \<open>replaceAll\<close> until none is left. \<open>None\<close> stands for a loop that does not end, or for
  a failure of \<open>replaceAll\<close>.
\<close>

partial_function (option) posix_separators :: "platform \<Rightarrow> string \<Rightarrow> string option" where
  "posix_separators P norm' =
     (if sep P \<noteq> CHR ''/'' \<and> includes_str norm' [sep P]
      then posix_separators P (replace_str [sep P] ''/'' [] norm')
      else Some norm')"

partial_function (option) collapse_slashes :: "string \<Rightarrow> string option" where
  "collapse_slashes norm' =
     (if includes_str norm' ''//''
      then Option.bind (replaceAll norm' ''//'' ''/'') collapse_slashes
      else Some norm')"

definition normalizePath :: "platform \<Rightarrow> string \<Rightarrow> bool \<Rightarrow> string option" where
  "normalizePath P p normalize_case =
     Option.bind (posix_separators P (path_normalize P p))
       (\<lambda>norm'. collapse_slashes
          (replace_first (Seq (Chr CHR ''/'') Eol) [] []
             (if normalize_case \<and> win32 P then toLocaleLowerCase P norm' else norm')))"

text \<open>
  A POSIX host. \<^verbatim>\<open>path.posix.normalize\<close> and \<^verbatim>\<open>path.posix.basename\<close> belong to
  Node.js, not to this repository; they are modelled here from the documentation of
  Node.js: \<open>normalize\<close> drops empty and \<^verbatim>\<open>.\<close> segments, resolves \<^verbatim>\<open>..\<close> against the
  segment before it, keeps one trailing slash, and returns \<^verbatim>\<open>.\<close> for the empty
  path. \<open>split_on\<close> is \<^verbatim>\<open>s.split(c)\<close>.
\<close>

fun split_on :: "char \<Rightarrow> string \<Rightarrow> string list" where
  "split_on c [] = [[]]"
| "split_on c (x # xs) =
     (if x = c then [] # split_on c xs
      else (case split_on c xs of [] \<Rightarrow> [[x]] | y # ys \<Rightarrow> (x # y) # ys))"

definition normalize_step :: "bool \<Rightarrow> string list \<Rightarrow> string \<Rightarrow> string list" where
  "normalize_step allowAboveRoot res seg =
     (if seg = [] \<or> seg = ''.'' then res
      else if seg = ''..'' then
        (if res \<noteq> [] \<and> last res \<noteq> ''..'' then butlast res
         else if allowAboveRoot then res @ [''..'']
         else res)
      else res @ [seg])"

definition posix_normalize :: "string \<Rightarrow> string" where
  "posix_normalize path =
     (if path = [] then ''.''
      else
        let isAbsolute = (hd path = CHR ''/'');
            trailingSeparator = (last path = CHR ''/'');
            p1 = join ''/'' (foldl (normalize_step (\<not> isAbsolute)) [] (split_on CHR ''/'' path));
            p2 = (if p1 = [] \<and> \<not> isAbsolute then ''.'' else p1);
            p3 = (if p2 \<noteq> [] \<and> trailingSeparator then p2 @ ''/'' else p2)
        in if isAbsolute then CHR ''/'' # p3 else p3)"

definition posix_basename :: "string \<Rightarrow> string" where
  "posix_basename path =
     (case filter (\<lambda>seg. seg \<noteq> []) (split_on CHR ''/'' path) of
        [] \<Rightarrow> []
      | segs \<Rightarrow> last segs)"

definition posix :: platform where
  "posix = \<lparr> win32 = False, sep = CHR ''/'', path_normalize = posix_normalize,
             path_basename = posix_basename, toLocaleLowerCase = (\<lambda>s. s) \<rparr>"

section \<open>Variable substitutor\<close>

text \<open>
  The ambient state that \<open>replaceVars\<close> reads: \<^verbatim>\<open>vscode.workspace.rootPath\<close>, which
  may be undefined, and \<^verbatim>\<open>config.toolset\<close>, which may be null. \<open>or_default\<close> is the
  operator \<^verbatim>\<open>||\<close> on them: the empty string is falsy too.
\<close>

record workspace =
  rootPath :: "string option"
  toolset :: "string option"

fun or_default :: "string option \<Rightarrow> string \<Rightarrow> string" where
  "or_default None d = d"
| "or_default (Some v) d = (if v = [] then d else v)"

text \<open>The object \<open>replacements\<close>, its keys in the order in which they are written.\<close>

definition replacements :: "platform \<Rightarrow> workspace \<Rightarrow> (string \<times> string) list" where
  "replacements P W =
     [(''${workspaceRoot}'', or_default (rootPath W) ''.''),
      (''${workspaceRootFolderName}'', path_basename P (or_default (rootPath W) ''.'')),
      (''${toolset}'', or_default (toolset W) ''unknown'')]"

definition replaceVars :: "platform \<Rightarrow> workspace \<Rightarrow> string \<Rightarrow> string option" where
  "replaceVars P W str =
     foldl (\<lambda>acc (key, v). case acc of None \<Rightarrow> None | Some a \<Rightarrow> replaceAll a key v)
       (Some str) (replacements P W)"

section \<open>Values\<close>

text \<open>
  A JavaScript number: NaN, an infinity, or a finite number. A finite number is given by
  its sign and its shortest decimal: \<open>Decimal neg s e\<close> is the number for which the
  language writes the digits of \<open>s\<close> with the exponent \<open>e\<close>, and which it reads back from
  them. The decimal \<open>s \<times> 10\<^sup>e\<close> is the one that \<^verbatim>\<open>Number::toString\<close> of ECMA-262 takes for
  the number: of the decimals that are nearer to this number than to any other, the one
  with the fewest digits (\<open>0.1\<close> is \<open>Decimal False 1 (- 1)\<close>). \<open>Decimal neg 0 e\<close> is a zero,
  and \<open>Decimal neg (10 * s) e\<close> is the same number as \<open>Decimal neg s (e + 1)\<close>. Every double
  has a shortest decimal, and no two doubles have the same; which decimals are the
  shortest decimal of a double is not modelled, and what holds of every decimal holds
  of every double.
\<close>

datatype number = NaN | Infinity | NegInfinity | Decimal bool nat int

text \<open>
  The values that \<open>isTruthy\<close> and \<open>cmakeify\<close> may receive at run time, where the declared
  types of the parameters are not checked. \<open>VNumberObject\<close> is a number wrapped in a
  \<^verbatim>\<open>Number\<close> object, \<open>VArray\<close> an array with its elements, \<open>VSymbol\<close> a symbol with its
  description, \<open>VObject\<close> an object with the string conversion of \<^verbatim>\<open>Object.prototype\<close>
  (an object literal without methods), and \<open>VBareObject\<close> an object without prototype
  (\<^verbatim>\<open>Object.create(null)\<close>), which has no string conversion. Functions, dates, objects
  with a \<^verbatim>\<open>toString\<close> of their own and arrays that hold themselves are not modelled.
\<close>

datatype jsvalue =
    VBool bool
  | VString string
  | VNumber number
  | VNumberObject number
  | VArray "jsvalue list"
  | VNull
  | VUndefined
  | VSymbol string
  | VObject
  | VBareObject

text \<open>\<^verbatim>\<open>!!value\<close>.\<close>

fun truthy_number :: "number \<Rightarrow> bool" where
  "truthy_number NaN = False"
| "truthy_number (Decimal neg s e) = (s \<noteq> 0)"
| "truthy_number Infinity = True"
| "truthy_number NegInfinity = True"

fun truthy :: "jsvalue \<Rightarrow> bool" where
  "truthy (VBool b) = b"
| "truthy (VString s) = (s \<noteq> [])"
| "truthy (VNumber n) = truthy_number n"
| "truthy VNull = False"
| "truthy VUndefined = False"
| "truthy (VNumberObject n) = True"
| "truthy (VArray xs) = True"
| "truthy (VSymbol d) = True"
| "truthy VObject = True"
| "truthy VBareObject = True"

text \<open>The decimal digits of a natural number and of an integer, without leading zeros.\<close>

definition digit_char :: "nat \<Rightarrow> char" where
  "digit_char n = ''0123456789'' ! n"

fun nat_digits :: "nat \<Rightarrow> string" where
  "nat_digits n =
     (if n < 10 then [digit_char n]
      else nat_digits (n div 10) @ [digit_char (n mod 10)])"

declare nat_digits.simps [simp del]


text \<open>
  \<^verbatim>\<open>Number.prototype.toString\<close> without a radix, which is \<^verbatim>\<open>Number::toString\<close> with the
  radix 10. That algorithm takes the \<open>k\<close> digits of the number without the zeros at their
  end (\<open>significant\<close>) and the integer \<open>n\<close> for which the number is \<open>0.d\<^sub>1\<dots>d\<^sub>k \<times> 10\<^sup>n\<close>, and
  writes (\<open>decimal_text\<close>): the digits and \<open>n - k\<close> zeros when \<open>k \<le> n \<le> 21\<close>; the digits with
  a point after the first \<open>n\<close> of them when \<open>0 < n \<le> 21\<close>; \<^verbatim>\<open>0.\<close>, \<open>- n\<close> zeros and the digits
  when \<open>- 6 < n \<le> 0\<close>; and otherwise the first digit, a point and the other digits if there
  are any, the letter \<^verbatim>\<open>e\<close>, the sign of \<open>n - 1\<close> and the digits of its absolute value.
  Both zeros are written \<^verbatim>\<open>0\<close>, and a negative number is written as a minus sign and
  the text of its absolute value.
\<close>

definition significant :: "string \<Rightarrow> string" where
  "significant ds = rev (dropWhile (\<lambda>c. c = CHR ''0'') (rev ds))"

definition decimal_text :: "string \<Rightarrow> int \<Rightarrow> string" where
  "decimal_text ds n =
     (let k = int (length ds) in
      if k \<le> n \<and> n \<le> 21 then ds @ replicate (nat (n - k)) (CHR ''0'')
      else if 0 < n \<and> n \<le> 21 then take (nat n) ds @ ''.'' @ drop (nat n) ds
      else if - 6 < n \<and> n \<le> 0 then ''0.'' @ replicate (nat (- n)) (CHR ''0'') @ ds
      else (if k = 1 then ds else hd ds # CHR ''.'' # tl ds)
           @ ''e'' @ (if n - 1 < 0 then ''-'' else ''+'') @ nat_digits (nat \<bar>n - 1\<bar>))"

fun number_toString :: "number \<Rightarrow> string" where
  "number_toString NaN = ''NaN''"
| "number_toString Infinity = ''Infinity''"
| "number_toString NegInfinity = ''-Infinity''"
| "number_toString (Decimal neg s e) =
     (if s = 0 then ''0''
      else (if neg then ''-'' else []) @
           decimal_text (significant (nat_digits s)) (int (length (nat_digits s)) + e))"

section \<open>Truthiness evaluator\<close>

text \<open>\<^verbatim>\<open>xs.indexOf(v)\<close>: the first index of \<open>v\<close>, or \<open>-1\<close>.\<close>

fun indexOf :: "'a list \<Rightarrow> 'a \<Rightarrow> int" where
  "indexOf [] v = - 1"
| "indexOf (x # xs) v =
     (if x = v then 0 else (if indexOf xs v < 0 then - 1 else indexOf xs v + 1))"

definition isTruthy :: "jsvalue \<Rightarrow> bool" where
  "isTruthy v =
     (case v of
        VString s \<Rightarrow>
          \<not> (indexOf ['''', ''FALSE'', ''OFF'', ''0'', ''NOTFOUND'', ''NO'', ''N'', ''IGNORE''] s \<ge> 0
             \<or> suffix ''-NOTFOUND'' s)
      | _ \<Rightarrow> truthy v)"

section \<open>Value marshaller\<close>

text \<open>
  Exceptions are values: \<open>InvalidValue\<close> is the \<^verbatim>\<open>Error\<close> that \<open>cmakeify\<close> throws,
  with its message; \<open>TypeError\<close> the error of a string conversion that a value does not
  have; \<open>RegExpSyntax\<close> a failure to build a regular expression;
  \<open>NoMatch\<close> the failure of \<open>splitCommandLine\<close> on \<^verbatim>\<open>null\<close> (the assertion and the
  call of \<^verbatim>\<open>map\<close> on it); \<open>KillFailed\<close> an error of \<^verbatim>\<open>process.kill\<close>, with its code.
\<close>

datatype error = InvalidValue string | TypeError | RegExpSyntax | NoMatch | KillFailed string

text \<open>
  String conversion, as the template literal of the error message and the method
  \<^verbatim>\<open>join\<close> of an array do it. A symbol and an object without prototype have none: the
  conversion throws a \<^verbatim>\<open>TypeError\<close>. An array is converted by joining its elements with
  commas. \<^verbatim>\<open>join\<close> takes the empty string for an element that is null or undefined and
  the string conversion of any other element, from left to right.
\<close>

fun to_string :: "jsvalue \<Rightarrow> error + string"
  and element_texts :: "jsvalue list \<Rightarrow> error + string list" where
  "to_string (VBool b) = Inr (if b then ''true'' else ''false'')"
| "to_string (VString s) = Inr s"
| "to_string (VNumber n) = Inr (number_toString n)"
| "to_string (VNumberObject n) = Inr (number_toString n)"
| "to_string (VArray xs) =
     (case element_texts xs of Inl e \<Rightarrow> Inl e | Inr ts \<Rightarrow> Inr (join '','' ts))"
| "to_string VNull = Inr ''null''"
| "to_string VUndefined = Inr ''undefined''"
| "to_string (VSymbol d) = Inl TypeError"
| "to_string VObject = Inr ''[object Object]''"
| "to_string VBareObject = Inl TypeError"
| "element_texts [] = Inr []"
| "element_texts (x # xs) =
     (case (if x = VNull \<or> x = VUndefined then Inr [] else to_string x) of
        Inl e \<Rightarrow> Inl e
      | Inr t \<Rightarrow> (case element_texts xs of Inl e \<Rightarrow> Inl e | Inr ts \<Rightarrow> Inr (t # ts)))"

definition array_join :: "string \<Rightarrow> jsvalue list \<Rightarrow> error + string" where
  "array_join separator xs =
     (case element_texts xs of Inl e \<Rightarrow> Inl e | Inr ts \<Rightarrow> Inr (join separator ts))"

datatype cmake_type = UNKNOWN | BOOL | STRING

record CMakeValue =
  cm_type :: cmake_type
  cm_value :: string

definition cmakeify :: "jsvalue \<Rightarrow> error + CMakeValue" where
  "cmakeify v =
     (case v of
        VBool b \<Rightarrow> Inr \<lparr> cm_type = BOOL, cm_value = (if b then ''TRUE'' else ''FALSE'') \<rparr>
      | VString s \<Rightarrow>
          (case replaceAll s '';'' [bslash, CHR '';''] of
             None \<Rightarrow> Inl RegExpSyntax
           | Some t \<Rightarrow> Inr \<lparr> cm_type = STRING, cm_value = t \<rparr>)
      | VNumberObject n \<Rightarrow> Inr \<lparr> cm_type = STRING, cm_value = number_toString n \<rparr>
      | VNumber n \<Rightarrow> Inr \<lparr> cm_type = STRING, cm_value = number_toString n \<rparr>
      | VArray xs \<Rightarrow>
          (case array_join '';'' xs of
             Inl e \<Rightarrow> Inl e
           | Inr t \<Rightarrow> Inr \<lparr> cm_type = STRING, cm_value = t \<rparr>)
      | _ \<Rightarrow>
          (case to_string v of
             Inl e \<Rightarrow> Inl e
           | Inr t \<Rightarrow> Inl (InvalidValue (''Invalid value to convert to cmake value: '' @ t))))"

text \<open>
  Modelled from the spec: the decoder of a list text, which the repository does not have
  (splitting on unescaped semicolons). The text is split at every semicolon that no
  backslash stands before; a backslash and the semicolon behind it stay in the element.
\<close>

fun split_unescaped :: "string \<Rightarrow> string list" where
  "split_unescaped [] = [[]]"
| "split_unescaped (c # cs) =
     (if c = CHR '';'' then [] # split_unescaped cs
      else if c = bslash \<and> cs \<noteq> [] \<and> hd cs = CHR '';'' then
        (case split_unescaped (tl cs) of
           [] \<Rightarrow> [[c, CHR '';'']]
         | y # ys \<Rightarrow> (c # CHR '';'' # y) # ys)
      else (case split_unescaped cs of [] \<Rightarrow> [[c]] | y # ys \<Rightarrow> (c # y) # ys))"

section \<open>Process tree terminator\<close>



















section \<open>Command line tokenizer\<close>

text \<open>
  \<^verbatim>\<open>/('(\\'|[^'])*'|"(\\"|[^"])*"|(\\ |[^ ])+|[\w-]+)/g\<close>. Its first two
  alternatives have one shape: \<open>quoted_span q n\<close> is the quote character \<open>q\<close>, any
  number of items in the group \<open>n\<close>, and \<open>q\<close> again; an item is a backslash followed by
  \<open>q\<close>, or a character other than \<open>q\<close>.
\<close>

definition quoted_item :: "char \<Rightarrow> nat \<Rightarrow> regex" where
  "quoted_item q n = Group n (Alt (Seq (Chr bslash) (Chr q)) (NoneOf [q]))"

definition quoted_span :: "char \<Rightarrow> nat \<Rightarrow> regex" where
  "quoted_span q n = Seq (Chr q) (Seq (Star (quoted_item q n)) (Chr q))"

definition cmd_re :: regex where
  "cmd_re = Group 1
     (Alt (quoted_span squote 2)
     (Alt (quoted_span dquote 3)
     (Alt (Plus (Group 4 (Alt (Seq (Chr bslash) (Chr CHR '' '')) (NoneOf [CHR '' '']))))
          (Plus (OneOf (word_chars @ ''-''))))))"

text \<open>\<^verbatim>\<open>arg.replace(/\\(")/g, '$1')\<close> and \<^verbatim>\<open>arg.replace(/^"(.*)"$/g, '$1')\<close>.\<close>

definition unescape_re :: regex where
  "unescape_re = Seq (Chr bslash) (Group 1 (Chr dquote))"

definition strip_re :: regex where
  "strip_re = Seq Bol (Seq (Chr dquote) (Seq (Group 1 (Star AnyChar)) (Seq (Chr dquote) Eol)))"

definition unescape_quotes :: "string \<Rightarrow> string" where
  "unescape_quotes arg = replace_g unescape_re ''$1'' [] arg"

definition strip_quotes :: "string \<Rightarrow> string" where
  "strip_quotes arg = replace_g strip_re ''$1'' [] arg"

definition splitCommandLine :: "string \<Rightarrow> error + string list" where
  "splitCommandLine cmd =
     (case match_g cmd_re [] cmd of
        [] \<Rightarrow> Inl NoMatch
      | arg # args \<Rightarrow> Inr (map (\<lambda>arg. strip_quotes (unescape_quotes arg)) (arg # args)))"

text \<open>
  A replacement text without replacement patterns, for a pattern without capturing
  groups: no dollar sign stands before a dollar sign, an ampersand, a backquote or a
  quote.
\<close>

fun plain :: "string \<Rightarrow> bool" where
  "plain [] = True"
| "plain [c] = True"
| "plain (c # d # ds) =
     ((c = CHR ''$'' \<longrightarrow> d \<notin> set [CHR ''$'', CHR ''&'', CHR 0x60, squote]) \<and> plain (d # ds))"

text \<open>
  The body of a quoted span: items that are a backslash followed by the quote character,
  or a character other than the quote character; the body does not end with a backslash
  that would escape the closing quote.
\<close>

fun quoted_body :: "char \<Rightarrow> string \<Rightarrow> bool" where
  "quoted_body q [] = True"
| "quoted_body q [c] = (c \<noteq> q \<and> c \<noteq> bslash)"
| "quoted_body q (c # d # ds) =
     (if c = bslash \<and> d = q then quoted_body q ds else c \<noteq> q \<and> quoted_body q (d # ds))"

text \<open>
  What \<open>strip_quotes\<close> is meant to compute: a text that starts and ends with a double
  quote, without a line terminator in between, loses the two quotes.
\<close>

definition unquoted :: "string \<Rightarrow> string" where
  "unquoted arg =
     (if 2 \<le> length arg \<and> hd arg = dquote \<and> last arg = dquote
         \<and> list_all (\<lambda>c. c \<noteq> CHR 0x0A \<and> c \<noteq> CHR 0x0D) (butlast (tl arg))
      then butlast (tl arg) else arg)"


text \<open>
  The inputs that the specification supports: booleans, strings, numbers and lists of
  strings; and the values that have a string conversion.
\<close>

fun is_string :: "jsvalue \<Rightarrow> bool" where
  "is_string (VString s) = True"
| "is_string v = False"

fun supported :: "jsvalue \<Rightarrow> bool" where
  "supported (VBool b) = True"
| "supported (VString s) = True"
| "supported (VNumber n) = True"
| "supported (VNumberObject n) = True"
| "supported (VArray xs) = list_all is_string xs"
| "supported v = False"

fun convertible :: "jsvalue \<Rightarrow> bool" where
  "convertible (VSymbol d) = False"
| "convertible VBareObject = False"
| "convertible (VArray xs) = list_all convertible xs"
| "convertible v = True"








definition of_integer :: "int \<Rightarrow> number" where
  "of_integer i = Decimal (i < 0) (nat \<bar>i\<bar>) 0"

section \<open>Properties of the text utilities\<close>

lemma rmatch_literal:
  "rmatch (literal n) (i, s, g) =
     (if prefix n s then [(i + length n, drop (length n) s, g)] else [])"
  by (induction n arbitrary: i s) (auto split: list.splits)

lemma groups_literal: "groups (literal n) = []"
  by (induction n) auto

lemma plain_tl: "plain (c # cs) \<Longrightarrow> plain cs"
  by (cases cs) auto

lemma getSubstitution_plain:
  "plain what \<Longrightarrow> getSubstitution m pre post g 0 what = what"
proof (induction m pre post g "0::nat" what rule: getSubstitution.induct)
  case (1 matched pre post g)
  then show ?case by simp
next
  case (2 matched pre post g c)
  then show ?case by simp
next
  case (3 matched pre post g c d ds)
  have pd: "plain (d # ds)" using "3.prems" by simp
  have pds: "plain ds" using pd by (rule plain_tl)
  have pes: "\<And>e es. ds = e # es \<Longrightarrow> plain es" using pds plain_tl by blast
  from 3 pd pds pes show ?case
    by (auto split: list.splits)
qed

lemma plain_no_dollar: "CHR ''$'' \<notin> set what \<Longrightarrow> plain what"
  by (induction what rule: plain.induct) auto

lemma replace_g_literal:
  "plain what \<Longrightarrow> replace_g (literal n) what pre s = literal_replace n what s"
proof (induction n what s arbitrary: pre rule: literal_replace.induct)
  case (1 n w)
  then show ?case
    by (subst replace_g.simps)
       (simp add: rmatch_literal getSubstitution_plain groups_literal)
next
  case (2 n w c cs)
  show ?case
  proof (cases "n = []")
    case True
    with 2 show ?thesis
      by (subst replace_g.simps)
         (simp add: rmatch_literal getSubstitution_plain groups_literal)
  next
    case False
    show ?thesis
    proof (cases "prefix n (c # cs)")
      case True
      with False 2 show ?thesis
        by (subst replace_g.simps)
           (simp add: rmatch_literal getSubstitution_plain groups_literal)
    next
      case np: False
      with False 2 show ?thesis
        by (subst replace_g.simps)
           (simp add: rmatch_literal getSubstitution_plain groups_literal)
    qed
  qed
qed

lemma replace_g_class:
  "replace_g (Group 1 (OneOf cs)) [bslash, CHR ''$'', CHR ''1''] pre s =
     concat (map (\<lambda>c. if c \<in> set cs then [bslash, c] else [c]) s)"
proof (induction s arbitrary: pre)
  case Nil
  show ?case by (subst replace_g.simps) simp
next
  case (Cons c s)
  then show ?case
    by (subst replace_g.simps)
       (simp add: capture_def is_digit_def digit_val_def group_text_def)
qed

lemma escapeStringForRegex_eq: "escapeStringForRegex s = concat (map esc s)"
proof -
  have "esc = (\<lambda>c. if c \<in> set escaped_chars then [bslash, c] else [c])"
    by (rule ext) (simp add: esc_def)
  then show ?thesis
    unfolding escapeStringForRegex_def by (simp only: replace_g_class)
qed

lemma pattern_text_esc: "pattern_text (concat (map esc s)) = Some s"
proof (induction s)
  case Nil
  then show ?case by simp
next
  case (Cons c s)
  show ?case
  proof (cases "c \<in> set escaped_chars")
    case True
    then have "identity_escape c"
      by (auto simp: escaped_chars_def identity_escape_def)
    with True Cons show ?thesis by (simp add: esc_def)
  next
    case False
    then have c: "c \<noteq> bslash" "c \<notin> set syntax_chars"
      by (auto simp: escaped_chars_def syntax_chars_def)
    from False have e: "esc c = [c]" by (simp add: esc_def)
    show ?thesis
    proof (cases "concat (map esc s)")
      case Nil
      with c e Cons show ?thesis by simp
    next
      case (Cons d ds)
      with c e Cons.IH show ?thesis by simp
    qed
  qed
qed

lemma RegExp_escaped: "RegExp (escapeStringForRegex needle) = Some (literal needle)"
  by (simp add: RegExp_def escapeStringForRegex_eq pattern_text_esc)

lemma replaceAll_plain:
  "plain what \<Longrightarrow> replaceAll str needle what = Some (literal_replace needle what str)"
  by (simp add: replaceAll_def RegExp_escaped replace_g_literal)

lemma removeAllPatterns_fold:
  "removeAllPatterns str ps = Some (foldl (\<lambda>acc n. literal_replace n [] acc) str ps)"
  unfolding removeAllPatterns_def
  by (induction ps arbitrary: str) (simp_all add: replaceAll_plain)

lemma replace_g_absent:
  "\<not> includes_str s n \<Longrightarrow> replace_g (literal n) what pre s = s"
proof (induction s arbitrary: pre)
  case Nil
  then show ?case by (subst replace_g.simps) (simp add: rmatch_literal)
next
  case (Cons c cs)
  then show ?case by (subst replace_g.simps) (simp add: rmatch_literal)
qed

lemma replaceAll_absent:
  "\<not> includes_str str needle \<Longrightarrow> replaceAll str needle what = Some str"
  by (simp add: replaceAll_def RegExp_escaped replace_g_absent)

text \<open>
  C10. \<open>replaceAll\<close> and \<open>removeAllPatterns\<close> take the needle as literal text, whatever
  characters it holds: the regular expression built from the escaped needle is the one
  that matches the needle's own code units; for a replacement \<open>what\<close> without a dollar
  sign, \<open>replaceAll str needle what\<close> replaces the literal occurrences of \<open>needle\<close> in
  \<open>str\<close>, from left to right; a text in which the needle does not occur is returned as
  it is; and \<open>removeAllPatterns str patterns\<close> is the left fold of the literal removals
  over \<open>patterns\<close>.
\<close>

theorem replaceAll_removeAllPatterns_literal:
  "RegExp (escapeStringForRegex needle) = Some (literal needle)
   \<and> (CHR ''$'' \<notin> set what \<longrightarrow>
        replaceAll str needle what = Some (literal_replace needle what str))
   \<and> (\<not> includes_str str needle \<longrightarrow> replaceAll str needle what = Some str)
   \<and> removeAllPatterns str patterns =
        Some (foldl (\<lambda>acc needle. literal_replace needle [] acc) str patterns)"
  by (simp add: RegExp_escaped replaceAll_plain plain_no_dollar removeAllPatterns_fold
        replaceAll_absent)

theorem replaceAll_removeAllPatterns_literal_witness:
  "CHR ''$'' \<notin> set ''X''
   \<and> replaceAll ''a.b*c.(d'' ''.'' ''X'' = Some ''aXb*cX(d''
   \<and> \<not> includes_str ''abc'' ''.''
   \<and> replaceAll ''abc'' ''.'' ''$&$&'' = Some ''abc''
   \<and> removeAllPatterns ''a.b*c.(d'' [''.b'', ''(d''] = Some ''a*c.''"
  using replaceAll_removeAllPatterns_literal
    [of "''.''" "''X''" "''a.b*c.(d''" "[''.b'', ''(d'']"]
    replaceAll_removeAllPatterns_literal [of "''.''" "''$&$&''" "''abc''" "[]"]
  by simp

section \<open>Properties of the value marshaller\<close>
























































lemma element_texts_strings: "element_texts (map VString xs) = Inr xs"
  by (induction xs) simp_all

lemma cmakeify_strings:
  "cmakeify (VArray (map VString xs)) = Inr \<lparr> cm_type = STRING, cm_value = join '';'' xs \<rparr>"
  by (simp add: cmakeify_def array_join_def element_texts_strings)

lemma convertible_text:
  "(convertible v \<longrightarrow> (\<exists>t. to_string v = Inr t))
   \<and> (\<not> convertible v \<longrightarrow> to_string v = Inl TypeError)"
  "(list_all convertible xs \<longrightarrow> (\<exists>ts. element_texts xs = Inr ts))
   \<and> (\<not> list_all convertible xs \<longrightarrow> element_texts xs = Inl TypeError)"
proof (induction v and xs rule: to_string_element_texts.induct)
  case (12 x xs)
  then show ?case by (auto split: sum.splits)
qed (auto split: sum.splits)

lemma cmakeify_array:
  "(list_all convertible xs \<longrightarrow> (\<exists>r. cmakeify (VArray xs) = Inr r))
   \<and> (\<not> list_all convertible xs \<longrightarrow> cmakeify (VArray xs) = Inl TypeError)"
  using convertible_text(2) [of xs] by (auto simp: cmakeify_def array_join_def)

lemma strings_map: "list_all is_string xs \<Longrightarrow> \<exists>ys. xs = map VString ys"
proof (induction xs)
  case Nil
  then show ?case by simp
next
  case (Cons x xs)
  then obtain ys where "xs = map VString ys" by auto
  moreover from Cons.prems obtain y where "x = VString y" by (cases x) auto
  ultimately have "x # xs = map VString (y # ys)" by simp
  then show ?case by (rule exI)
qed



lemma replicate_numeral: "replicate (numeral k) x = x # replicate (pred_numeral k) x"
  by (simp add: numeral_eq_Suc)

text \<open>
  What the language writes for some numbers: an exponent from \<open>10\<^sup>2\<^sup>1\<close> on and below
  \<open>10\<^sup>-\<^sup>6\<close>, and plain digits in between.
\<close>

lemma number_toString_examples:
  "number_toString (of_integer 42) = ''42''
   \<and> number_toString (Decimal False 1 20) = ''100000000000000000000''
   \<and> number_toString (Decimal False 1 21) = ''1e+21''
   \<and> number_toString (Decimal False 12345678901234568 4) = ''123456789012345680000''
   \<and> number_toString (Decimal False 12345678901234568 5) = ''1.2345678901234568e+21''
   \<and> number_toString (Decimal True 15 (- 1)) = ''-1.5''
   \<and> number_toString (Decimal False 1 (- 6)) = ''0.000001''
   \<and> number_toString (Decimal False 1 (- 7)) = ''1e-7''
   \<and> number_toString (Decimal False 5 (- 324)) = ''5e-324''
   \<and> number_toString (Decimal True 0 0) = ''0''"
  by (simp add: of_integer_def decimal_text_def significant_def nat_digits.simps digit_char_def
      replicate_numeral)

text \<open>
  C8, as amended. \<open>cmakeify\<close> returns a value for every boolean, string, number and
  list of strings, and for every other array too when its elements have a string
  conversion. On an input that is none of these and has a string conversion it fails
  with the error whose message ends with the text of the value: \<^verbatim>\<open>null\<close>,
  \<^verbatim>\<open>undefined\<close>, and \<^verbatim>\<open>[object Object]\<close> for an object with the string conversion of
  \<^verbatim>\<open>Object.prototype\<close>.
\<close>

theorem cmakeify_invalid:
  "(supported v \<longrightarrow> (\<exists>r. cmakeify v = Inr r))
   \<and> (list_all convertible xs \<longrightarrow> (\<exists>r. cmakeify (VArray xs) = Inr r))
   \<and> (\<not> supported v \<and> (\<forall>ys. v \<noteq> VArray ys) \<and> to_string v = Inr t \<longrightarrow>
        cmakeify v = Inl (InvalidValue (''Invalid value to convert to cmake value: '' @ t)))
   \<and> cmakeify VNull = Inl (InvalidValue ''Invalid value to convert to cmake value: null'')
   \<and> cmakeify VUndefined = Inl (InvalidValue ''Invalid value to convert to cmake value: undefined'')
   \<and> cmakeify VObject = Inl (InvalidValue ''Invalid value to convert to cmake value: [object Object]'')"
proof -
  have s: "supported v \<longrightarrow> (\<exists>r. cmakeify v = Inr r)"
  proof (cases v)
    case (VArray ys)
    show ?thesis
    proof
      assume "supported v"
      with VArray obtain zs where "ys = map VString zs" using strings_map by auto
      with VArray show "\<exists>r. cmakeify v = Inr r" by (simp add: cmakeify_strings)
    qed
  qed (simp_all add: cmakeify_def replaceAll_plain)
  have u: "\<not> supported v \<and> (\<forall>ys. v \<noteq> VArray ys) \<and> to_string v = Inr t \<longrightarrow>
        cmakeify v = Inl (InvalidValue (''Invalid value to convert to cmake value: '' @ t))"
    by (cases v) (simp_all add: cmakeify_def)
  have e: "cmakeify VNull = Inl (InvalidValue ''Invalid value to convert to cmake value: null'')"
    "cmakeify VUndefined = Inl (InvalidValue ''Invalid value to convert to cmake value: undefined'')"
    "cmakeify VObject = Inl (InvalidValue ''Invalid value to convert to cmake value: [object Object]'')"
    by (simp_all add: cmakeify_def)
  from s u e cmakeify_array [of xs] show ?thesis by blast
qed

theorem cmakeify_invalid_witness:
  "supported (VArray [VString ''x'']) \<and> (\<exists>r. cmakeify (VArray [VString ''x'']) = Inr r)
   \<and> list_all convertible [VNumber (of_integer 1), VNull, VArray [VObject]]
   \<and> (\<exists>r. cmakeify (VArray [VNumber (of_integer 1), VNull, VArray [VObject]]) = Inr r)
   \<and> \<not> supported VObject \<and> (\<forall>ys. VObject \<noteq> VArray ys)
   \<and> to_string VObject = Inr ''[object Object]''
   \<and> cmakeify VObject = Inl (InvalidValue ''Invalid value to convert to cmake value: [object Object]'')"
  using cmakeify_invalid [of "VArray [VString ''x'']"
          "[VNumber (of_integer 1), VNull, VArray [VObject]]" "''x''"]
        cmakeify_invalid [of VObject "[]" "''[object Object]''"]
  by simp

text \<open>
  C8 as stated says that every input other than a boolean, a string, a number and a list
  of strings fails. An array of numbers is no list of strings, and it is converted.
\<close>

theorem cmakeify_invalid_counterexample:
  "\<not> supported (VArray [VNumber (of_integer 1), VNumber (of_integer 2)])
   \<and> cmakeify (VArray [VNumber (of_integer 1), VNumber (of_integer 2)])
        = Inr \<lparr> cm_type = STRING, cm_value = ''1;2'' \<rparr>"
  by (simp add: cmakeify_def array_join_def of_integer_def decimal_text_def significant_def
      nat_digits.simps digit_char_def)

text \<open>
  A symbol and an object without prototype have no string conversion. On them, and on
  an array that holds one, the \<^verbatim>\<open>TypeError\<close> of the conversion is thrown, and the error
  of \<open>cmakeify\<close> with its message is not reached.
\<close>

lemma cmakeify_no_conversion:
  "cmakeify (VSymbol d) = Inl TypeError
   \<and> cmakeify VBareObject = Inl TypeError
   \<and> (\<not> list_all convertible xs \<longrightarrow> cmakeify (VArray xs) = Inl TypeError)"
  using cmakeify_array [of xs] by (simp add: cmakeify_def)

lemma split_unescaped_last:
  "CHR '';'' \<notin> set e \<Longrightarrow> split_unescaped e = [e]"
proof (induction e rule: split_unescaped.induct)
  case 1
  then show ?case by simp
next
  case (2 c cs)
  then show ?case by (cases cs) auto
qed

lemma split_unescaped_element:
  "CHR '';'' \<notin> set e \<Longrightarrow> e = [] \<or> last e \<noteq> bslash \<Longrightarrow>
   split_unescaped (e @ CHR '';'' # rest) = e # split_unescaped rest"
proof (induction e)
  case Nil
  then show ?case by simp
next
  case (Cons c cs)
  show ?case
  proof (cases "cs = []")
    case True
    with Cons.prems show ?thesis by simp
  next
    case False
    with Cons.prems have ih: "split_unescaped (cs @ CHR '';'' # rest) = cs # split_unescaped rest"
      by (intro Cons.IH) auto
    from False Cons.prems have h: "hd (cs @ CHR '';'' # rest) \<noteq> CHR '';''"
      by (cases cs) auto
    from Cons.prems have c: "c \<noteq> CHR '';''" by auto
    from c h ih show ?thesis by simp
  qed
qed

lemma split_unescaped_join:
  "L \<noteq> [] \<Longrightarrow> \<forall>e \<in> set L. CHR '';'' \<notin> set e \<Longrightarrow>
   \<forall>e \<in> set (butlast L). e = [] \<or> last e \<noteq> bslash \<Longrightarrow>
   split_unescaped (join '';'' L) = L"
proof (induction "'';''" L rule: join.induct)
  case 1
  then show ?case by simp
next
  case (2 x)
  then show ?case by (simp add: split_unescaped_last)
next
  case (3 x y ys)
  then show ?case by (simp add: split_unescaped_element)
qed

text \<open>
  C2, as amended. For every list of strings that is not empty, in which no element holds
  a semicolon and no element but the last ends with a backslash, splitting the text of
  \<open>cmakeify\<close> at the semicolons that are not escaped gives the list back.
\<close>

theorem cmakeify_list_roundtrip:
  "L \<noteq> [] \<Longrightarrow> \<forall>e \<in> set L. CHR '';'' \<notin> set e \<Longrightarrow>
   \<forall>e \<in> set (butlast L). e = [] \<or> last e \<noteq> bslash \<Longrightarrow>
   \<exists>t. cmakeify (VArray (map VString L)) = Inr \<lparr> cm_type = STRING, cm_value = t \<rparr>
       \<and> split_unescaped t = L"
  by (simp add: cmakeify_strings split_unescaped_join)

theorem cmakeify_list_roundtrip_witness:
  "[''a'', '''', ''b c'', [CHR ''d'', bslash]] \<noteq> []
   \<and> list_all (\<lambda>e. CHR '';'' \<notin> set e) [''a'', '''', ''b c'', [CHR ''d'', bslash]]
   \<and> list_all (\<lambda>e. e = [] \<or> last e \<noteq> bslash) (butlast [''a'', '''', ''b c'', [CHR ''d'', bslash]])
   \<and> (\<exists>t. cmakeify (VArray (map VString [''a'', '''', ''b c'', [CHR ''d'', bslash]]))
             = Inr \<lparr> cm_type = STRING, cm_value = t \<rparr>
          \<and> split_unescaped t = [''a'', '''', ''b c'', [CHR ''d'', bslash]])"
  using cmakeify_list_roundtrip [of "[''a'', '''', ''b c'', [CHR ''d'', bslash]]"]
  by simp

text \<open>
  C2 as stated fails on the empty list: its text is empty, and the empty text splits into
  one empty element; no decoder can do better, since the list of one empty string has
  the same text. It also fails on an element that ends with a backslash, which escapes
  the separator behind it.
\<close>

theorem cmakeify_list_roundtrip_counterexample:
  "cmakeify (VArray []) = Inr \<lparr> cm_type = STRING, cm_value = [] \<rparr>
   \<and> split_unescaped [] \<noteq> []
   \<and> cmakeify (VArray []) = cmakeify (VArray [VString []])
   \<and> cmakeify (VArray [VString [CHR ''a'', bslash], VString ''b''])
        = Inr \<lparr> cm_type = STRING, cm_value = [CHR ''a'', bslash, CHR '';'', CHR ''b''] \<rparr>
   \<and> split_unescaped [CHR ''a'', bslash, CHR '';'', CHR ''b''] \<noteq> [[CHR ''a'', bslash], ''b'']"
  by (simp add: cmakeify_def array_join_def)

section \<open>Properties of the truthiness evaluator\<close>

lemma indexOf_mem: "(indexOf xs v \<ge> 0) = (v \<in> set xs)"
  by (induction xs) auto

text \<open>
  C5, as amended. A string is falsy exactly when it is empty, one of \<^verbatim>\<open>FALSE\<close>,
  \<^verbatim>\<open>OFF\<close>, \<^verbatim>\<open>0\<close>, \<^verbatim>\<open>NOTFOUND\<close>, \<^verbatim>\<open>NO\<close>, \<^verbatim>\<open>N\<close>, \<^verbatim>\<open>IGNORE\<close> (compared
  case-sensitively), or ends with \<^verbatim>\<open>-NOTFOUND\<close>. A boolean is its own truth value,
  null and undefined are falsy, and a number is falsy exactly when it is zero or NaN.
\<close>

theorem isTruthy_cases:
  "isTruthy (VString s) =
     (s \<notin> set ['''', ''FALSE'', ''OFF'', ''0'', ''NOTFOUND'', ''NO'', ''N'', ''IGNORE'']
      \<and> \<not> suffix ''-NOTFOUND'' s)
   \<and> isTruthy (VBool b) = b
   \<and> isTruthy VNull = False
   \<and> isTruthy VUndefined = False
   \<and> isTruthy (VNumber (Decimal neg sg e)) = (sg \<noteq> 0)
   \<and> isTruthy (VNumber NaN) = False
   \<and> isTruthy (VNumber Infinity) = True
   \<and> isTruthy (VNumber NegInfinity) = True"
  unfolding isTruthy_def
  by (simp only: jsvalue.case indexOf_mem truthy.simps truthy_number.simps) auto

theorem isTruthy_cases_witness:
  "isTruthy (VString '''') = False
   \<and> isTruthy (VString ''OFF'') = False
   \<and> isTruthy (VString ''FOO-NOTFOUND'') = False
   \<and> isTruthy (VString ''ON'') = True
   \<and> isTruthy (VString ''off'') = True
   \<and> isTruthy (VNumber (Decimal False 1 0)) = True
   \<and> isTruthy (VNumber (Decimal False 0 0)) = False
   \<and> isTruthy (VNumber (Decimal True 5 (- 1))) = True
   \<and> isTruthy (VBool True) = True"
  using isTruthy_cases [of "''''" True False 1 0]
        isTruthy_cases [of "''''" True True 5 "- 1"]
        isTruthy_cases [of "''OFF''" True False 0 0]
        isTruthy_cases [of "''FOO-NOTFOUND''" True False 0 0]
        isTruthy_cases [of "''ON''" True False 0 0]
        isTruthy_cases [of "''off''" True False 0 0]
  by (simp add: suffix_to_prefix)

text \<open>
  C5 as stated says that every number other than zero is truthy; NaN is a number other
  than zero, and it is falsy.
\<close>

theorem isTruthy_NaN_counterexample:
  "isTruthy (VNumber NaN) = False \<and> (\<forall>neg e. NaN \<noteq> Decimal neg 0 e)"
  by (simp add: isTruthy_def)

section \<open>Properties of the variable substitutor\<close>

text \<open>
  C4, as amended. \<open>replaceVars\<close> makes three passes, one after the other, each over the
  result of the pass before: the literal occurrences of \<^verbatim>\<open>${workspaceRoot}\<close> are
  replaced by the workspace root (or \<^verbatim>\<open>.\<close>), then those of
  \<^verbatim>\<open>${workspaceRootFolderName}\<close> by its base name, then those of \<^verbatim>\<open>${toolset}\<close> by
  the toolset (or \<^verbatim>\<open>unknown\<close>); this holds for values without replacement patterns.
  A text in which none of the three placeholders occurs is returned as it is, so every
  other placeholder stays.
\<close>

theorem replaceVars_passes:
  "(plain (or_default (rootPath W) ''.'')
    \<and> plain (path_basename P (or_default (rootPath W) ''.''))
    \<and> plain (or_default (toolset W) ''unknown'')
    \<longrightarrow> replaceVars P W str =
          Some (literal_replace ''${toolset}'' (or_default (toolset W) ''unknown'')
                 (literal_replace ''${workspaceRootFolderName}''
                    (path_basename P (or_default (rootPath W) ''.''))
                    (literal_replace ''${workspaceRoot}'' (or_default (rootPath W) ''.'') str))))
   \<and> (\<not> includes_str str ''${workspaceRoot}''
      \<and> \<not> includes_str str ''${workspaceRootFolderName}''
      \<and> \<not> includes_str str ''${toolset}''
      \<longrightarrow> replaceVars P W str = Some str)"
  by (simp add: replaceVars_def replacements_def replaceAll_plain replaceAll_absent)

theorem replaceVars_passes_witness:
  "plain (or_default (rootPath \<lparr>rootPath = Some ''${toolset}'', toolset = Some ''gcc''\<rparr>) ''.'')
   \<and> plain (path_basename posix (or_default (rootPath \<lparr>rootPath = Some ''${toolset}'', toolset = Some ''gcc''\<rparr>) ''.''))
   \<and> plain (or_default (toolset \<lparr>rootPath = Some ''${toolset}'', toolset = Some ''gcc''\<rparr>) ''unknown'')
   \<and> replaceVars posix \<lparr>rootPath = Some ''${toolset}'', toolset = Some ''gcc''\<rparr>
        ''${toolset}-build of ${workspaceRoot} ${foo}'' = Some ''gcc-build of gcc ${foo}''
   \<and> \<not> includes_str ''${foo}/${bar}'' ''${workspaceRoot}''
   \<and> \<not> includes_str ''${foo}/${bar}'' ''${workspaceRootFolderName}''
   \<and> \<not> includes_str ''${foo}/${bar}'' ''${toolset}''
   \<and> replaceVars posix \<lparr>rootPath = None, toolset = None\<rparr> ''${foo}/${bar}'' = Some ''${foo}/${bar}''"
  using replaceVars_passes [of "\<lparr>rootPath = Some ''${toolset}'', toolset = Some ''gcc''\<rparr>" posix
          "''${toolset}-build of ${workspaceRoot} ${foo}''"]
        replaceVars_passes [of "\<lparr>rootPath = None, toolset = None\<rparr>" posix "''${foo}/${bar}''"]
  by (simp add: posix_def posix_basename_def)

text \<open>
  C4 as stated says that a replacement value is never substituted again. A workspace
  root that holds \<^verbatim>\<open>${toolset}\<close> is: the third pass replaces what the first pass put
  in. It also says that a placeholder is replaced by its value; a value that holds the
  replacement pattern \<^verbatim>\<open>$&\<close> is not inserted as it is.
\<close>

theorem replaceVars_single_pass_counterexample:
  "or_default (rootPath \<lparr>rootPath = Some ''${toolset}'', toolset = Some ''gcc''\<rparr>) ''.'' = ''${toolset}''
   \<and> replaceVars posix \<lparr>rootPath = Some ''${toolset}'', toolset = Some ''gcc''\<rparr> ''${workspaceRoot}''
       = Some ''gcc''
   \<and> replaceVars posix \<lparr>rootPath = None, toolset = Some ''a$&b''\<rparr> ''${toolset}''
       = Some ''a${toolset}b''"
proof -
  have "replaceAll ''${toolset}'' ''${toolset}'' ''a$&b'' = Some ''a${toolset}b''"
    by (simp add: replaceAll_def RegExp_escaped replace_g.simps rmatch_literal groups_literal)
  then show ?thesis
    by (simp add: replaceVars_def replacements_def replaceAll_plain replaceAll_absent posix_def
          posix_basename_def)
qed

section \<open>Properties of the path normalizer\<close>

text \<open>
  C9. On a POSIX host the root path is normalized to the empty string, and the empty
  string to \<^verbatim>\<open>.\<close>: normalizing twice differs from normalizing once, for either
  setting of the case folding.
\<close>

theorem normalizePath_root_not_idempotent:
  "normalizePath posix ''/'' normalize_case = Some []
   \<and> normalizePath posix [] normalize_case = Some ''.''
   \<and> Option.bind (normalizePath posix ''/'' normalize_case)
         (\<lambda>p. normalizePath posix p normalize_case)
       \<noteq> normalizePath posix ''/'' normalize_case"
proof -
  have a: "normalizePath posix ''/'' normalize_case = Some []"
    by (simp add: normalizePath_def posix_def posix_separators.simps posix_normalize_def
          normalize_step_def replace_first.simps collapse_slashes.simps)
  have b: "normalizePath posix [] normalize_case = Some ''.''"
    by (simp add: normalizePath_def posix_def posix_separators.simps posix_normalize_def
          normalize_step_def replace_first.simps collapse_slashes.simps)
  from a b show ?thesis by simp
qed

section \<open>Properties of the process tree terminator\<close>























section \<open>Properties of the command line tokenizer\<close>

lemma concat_map_nonempty:
  "xs \<noteq> [] \<Longrightarrow> (\<And>x. f x \<noteq> []) \<Longrightarrow> concat (map f xs) \<noteq> []"
  by (cases xs) auto

lemma rmatch_Star_nonempty: "rmatch (Star a) st \<noteq> []"
proof -
  obtain i s g where "st = (i, s, g)" by (cases st) auto
  then show ?thesis by (simp only: rmatch_Star append_is_Nil_conv list.simps simp_thms)
qed

lemma cmd_re_space: "rmatch cmd_re (i, CHR '' '' # s, g) = []"
  by (simp add: cmd_re_def quoted_span_def word_chars_def)

lemma cmd_re_end: "rmatch cmd_re (i, [], g) = []"
  by (simp add: cmd_re_def quoted_span_def)

lemma cmd_re_token:
  assumes "c \<noteq> CHR '' ''"
  shows "rmatch cmd_re (i, c # s, g) \<noteq> []"
proof -
  let ?G = "Group 4 (Alt (Seq (Chr bslash) (Chr CHR '' '')) (NoneOf [CHR '' '']))"
  from assms have "rmatch ?G (i, c # s, g) \<noteq> []" by simp
  then have "rmatch (Plus ?G) (i, c # s, g) \<noteq> []"
    unfolding rmatch.simps(7) by (rule concat_map_nonempty) (rule rmatch_Star_nonempty)
  then show ?thesis
    by (simp only: cmd_re_def rmatch.simps(8) rmatch.simps(10) map_is_Nil_conv
          append_is_Nil_conv simp_thms)
qed

lemma match_g_cmd_re_empty:
  "(match_g cmd_re pre s = []) = list_all (\<lambda>c. c = CHR '' '') s"
proof (induction s arbitrary: pre)
  case Nil
  show ?case by (subst match_g.simps) (simp add: cmd_re_end)
next
  case (Cons c s)
  show ?case
  proof (cases "c = CHR '' ''")
    case True
    with Cons show ?thesis by (subst match_g.simps) (simp add: cmd_re_space)
  next
    case False
    then have "rmatch cmd_re (length pre, c # s, []) \<noteq> []" by (rule cmd_re_token)
    then obtain j t h rest where r: "rmatch cmd_re (length pre, c # s, []) = (j, t, h) # rest"
      by (cases "rmatch cmd_re (length pre, c # s, [])") auto
    from False show ?thesis
      by (subst match_g.simps) (simp add: r)
  qed
qed

text \<open>
  C7. \<open>splitCommandLine\<close> fails on every command in which the pattern matches
  nowhere, and these are the commands that consist of spaces only (the empty command
  among them); on every other command it returns a sequence of tokens, which is not
  empty.
\<close>

theorem splitCommandLine_fails_iff:
  "(list_all (\<lambda>c. c = CHR '' '') cmd \<longrightarrow> splitCommandLine cmd = Inl NoMatch)
   \<and> (\<not> list_all (\<lambda>c. c = CHR '' '') cmd \<longrightarrow>
        (\<exists>ts. ts \<noteq> [] \<and> splitCommandLine cmd = Inr ts))"
proof (cases "match_g cmd_re [] cmd")
  case Nil
  then show ?thesis
    using match_g_cmd_re_empty [of "[]" cmd] by (simp add: splitCommandLine_def)
next
  case (Cons a as)
  then show ?thesis
    using match_g_cmd_re_empty [of "[]" cmd] by (simp add: splitCommandLine_def)
qed

theorem splitCommandLine_fails_iff_witness:
  "list_all (\<lambda>c. c = CHR '' '') '''' \<and> splitCommandLine '''' = Inl NoMatch
   \<and> list_all (\<lambda>c. c = CHR '' '') ''   '' \<and> splitCommandLine ''   '' = Inl NoMatch
   \<and> \<not> list_all (\<lambda>c. c = CHR '' '') '' a ''
   \<and> (\<exists>ts. ts \<noteq> [] \<and> splitCommandLine '' a '' = Inr ts)"
  using splitCommandLine_fails_iff [of "''''"] splitCommandLine_fails_iff [of "''   ''"]
        splitCommandLine_fails_iff [of "'' a ''"]
  by simp

lemma rmatch_unescape:
  "rmatch unescape_re (i, s, g) =
     (if prefix [bslash, dquote] s then [(i + 2, drop 2 s, capture 1 [dquote] g)] else [])"
proof (cases s)
  case Nil
  then show ?thesis by (simp add: unescape_re_def)
next
  case (Cons c cs)
  then show ?thesis by (cases cs) (auto simp: unescape_re_def)
qed

lemma groups_unescape_re: "length (groups unescape_re) = 1"
  by (simp add: unescape_re_def)

lemma groups_strip_re: "length (groups strip_re) = 1"
  by (simp add: strip_re_def)

lemma getSubstitution_group1:
  "getSubstitution m pre post ((Suc 0, v) # g) (Suc 0) ''$1'' = v"
  by (simp add: is_digit_def digit_val_def group_text_def)

lemma replace_g_unescape:
  "replace_g unescape_re ''$1'' pre s = literal_replace [bslash, dquote] [dquote] s"
proof (induction "[bslash, dquote]" "[dquote]" s arbitrary: pre rule: literal_replace.induct)
  case 1
  show ?case by (subst replace_g.simps) (simp add: rmatch_unescape)
next
  case (2 c cs)
  show ?case
  proof (cases "prefix [bslash, dquote] (c # cs)")
    case True
    with 2 show ?thesis
      by (subst replace_g.simps)
         (simp add: rmatch_unescape capture_def groups_unescape_re is_digit_def digit_val_def
            group_text_def)
  next
    case False
    then have "rmatch unescape_re (length pre, c # cs, []) = []"
      by (simp only: rmatch_unescape if_False)
    with False 2 show ?thesis
      by (subst replace_g.simps) auto
  qed
qed

lemma unescape_quotes_eq:
  "unescape_quotes arg = literal_replace [bslash, dquote] [dquote] arg"
  by (simp add: unescape_quotes_def replace_g_unescape)

lemma strip_re_not_start: "0 < i \<Longrightarrow> rmatch strip_re (i, s, g) = []"
  by (simp add: strip_re_def)

lemma replace_g_not_start: "pre \<noteq> [] \<Longrightarrow> replace_g strip_re what pre s = s"
proof (induction s arbitrary: pre)
  case Nil
  then show ?case by (subst replace_g.simps) (simp add: strip_re_not_start)
next
  case (Cons c s)
  then show ?case by (subst replace_g.simps) (simp add: strip_re_not_start)
qed

lemma rmatch_Star_AnyChar_Nil: "rmatch (Star AnyChar) (i, [], g) = [(i, [], g)]"
  by (subst rmatch_Star) simp

lemma rmatch_Star_AnyChar_Cons:
  "rmatch (Star AnyChar) (i, c # cs, g) =
     (if c \<noteq> CHR 0x0A \<and> c \<noteq> CHR 0x0D then rmatch (Star AnyChar) (Suc i, cs, g) else [])
     @ [(i, c # cs, g)]"
  by (subst rmatch_Star) (simp add: reset_def)

lemma rmatch_closing:
  "rmatch (Seq (Chr dquote) Eol) (i, s, g) = (if s = [dquote] then [(Suc i, [], g)] else [])"
proof (cases s)
  case Nil
  then show ?thesis by simp
next
  case (Cons c cs)
  then show ?thesis by (cases cs) auto
qed

lemma rmatch_strip_body:
  "concat (map (rmatch (Seq (Chr dquote) Eol))
     (map (\<lambda>(j, t, h). (j, t, capture 1 (take (j - i0) s0) h))
        (rmatch (Star AnyChar) (i, s, g)))) =
   (if s \<noteq> [] \<and> last s = dquote
        \<and> list_all (\<lambda>c. c \<noteq> CHR 0x0A \<and> c \<noteq> CHR 0x0D) (butlast s)
    then [(i + length s, [], capture 1 (take (i + length s - Suc i0) s0) g)]
    else [])"
proof -
  define F where "F = (\<lambda>i s. concat (map (rmatch (Seq (Chr dquote) Eol))
     (map (\<lambda>(j, t, h). (j, t, capture 1 (take (j - i0) s0) h))
        (rmatch (Star AnyChar) (i, s, g)))))"
  have nil: "F i [] = []" for i
    unfolding F_def rmatch_Star_AnyChar_Nil by (simp only: list.map prod.case concat.simps rmatch_closing) simp
  have cons: "F i (c # cs) =
      (if c \<noteq> CHR 0x0A \<and> c \<noteq> CHR 0x0D then F (Suc i) cs else [])
      @ (if c = dquote \<and> cs = [] then [(Suc i, [], capture 1 (take (i - i0) s0) g)] else [])"
    for i c cs
    unfolding F_def rmatch_Star_AnyChar_Cons
    by (simp only: map_append concat_append list.map prod.case concat.simps rmatch_closing
          append_Nil2 if_distrib [of "map _"] if_distrib [of concat]) auto
  have "F i s =
   (if s \<noteq> [] \<and> last s = dquote
        \<and> list_all (\<lambda>c. c \<noteq> CHR 0x0A \<and> c \<noteq> CHR 0x0D) (butlast s)
    then [(i + length s, [], capture 1 (take (i + length s - Suc i0) s0) g)]
    else [])"
  proof (induction s arbitrary: i)
    case Nil
    show ?case by (simp add: nil)
  next
    case (Cons c cs)
    show ?case
    proof (cases "cs = []")
      case True
      then show ?thesis by (simp add: cons nil)
    next
      case False
      then show ?thesis by (simp add: cons Cons)
    qed
  qed
  then show ?thesis unfolding F_def .
qed

lemma rmatch_strip:
  "rmatch strip_re (0, dquote # cs, []) =
   (if cs \<noteq> [] \<and> last cs = dquote
        \<and> list_all (\<lambda>c. c \<noteq> CHR 0x0A \<and> c \<noteq> CHR 0x0D) (butlast cs)
    then [(Suc (length cs), [], [(1, butlast cs)])]
    else [])"
proof -
  have "rmatch strip_re (0, dquote # cs, []) =
        concat (map (rmatch (Seq (Chr dquote) Eol))
          (map (\<lambda>(j, t, h). (j, t, capture 1 (take (j - Suc 0) cs) h))
             (rmatch (Star AnyChar) (Suc 0, cs, []))))"
    by (simp add: strip_re_def)
  also have "\<dots> =
    (if cs \<noteq> [] \<and> last cs = dquote
        \<and> list_all (\<lambda>c. c \<noteq> CHR 0x0A \<and> c \<noteq> CHR 0x0D) (butlast cs)
     then [(Suc 0 + length cs, [], capture 1 (take (Suc 0 + length cs - Suc (Suc 0)) cs) [])]
     else [])"
    by (rule rmatch_strip_body)
  finally show ?thesis by (simp add: capture_def butlast_conv_take)
qed

lemma strip_quotes_eq: "strip_quotes arg = unquoted arg"
proof (cases arg)
  case Nil
  then show ?thesis
    unfolding strip_quotes_def unquoted_def
    by (subst replace_g.simps) (simp add: strip_re_def)
next
  case (Cons c cs)
  show ?thesis
  proof (cases "c = dquote")
    case False
    then have "rmatch strip_re (0, c # cs, []) = []" by (simp add: strip_re_def)
    with False Cons show ?thesis
      unfolding strip_quotes_def unquoted_def
      by (subst replace_g.simps) (simp add: replace_g_not_start)
  next
    case True
    show ?thesis
    proof (cases "cs \<noteq> [] \<and> last cs = dquote
        \<and> list_all (\<lambda>c. c \<noteq> CHR 0x0A \<and> c \<noteq> CHR 0x0D) (butlast cs)")
      case c: True
      have e: "replace_g strip_re ''$1'' (dquote # cs) [] = []"
        by (rule replace_g_not_start) simp
      from c Cons True show ?thesis
        unfolding strip_quotes_def unquoted_def
        by (subst replace_g.simps)
           (auto simp add: rmatch_strip groups_strip_re e is_digit_def digit_val_def
            group_text_def Suc_le_eq)
    next
      case c: False
      then have "rmatch strip_re (0, dquote # cs, []) = []" by (simp only: rmatch_strip if_False)
      with c Cons True show ?thesis
        unfolding strip_quotes_def unquoted_def
        by (subst replace_g.simps) (auto simp add: replace_g_not_start)
    qed
  qed
qed


lemma quoted_item_quote:
  "q \<noteq> bslash \<Longrightarrow> rmatch (quoted_item q n) (i, q # s, g) = []"
  by (simp add: quoted_item_def)

lemma quoted_item_plain:
  "c \<noteq> q \<Longrightarrow> \<not> (c = bslash \<and> prefix [q] s) \<Longrightarrow>
   rmatch (quoted_item q n) (i, c # s, g) = [(Suc i, s, capture n [c] g)]"
  by (cases s) (auto simp: quoted_item_def)

lemma quoted_item_escaped:
  "q \<noteq> bslash \<Longrightarrow>
   rmatch (quoted_item q n) (i, bslash # q # s, g) =
     [(Suc (Suc i), s, capture n [bslash, q] g), (Suc i, q # s, capture n [bslash] g)]"
  by (simp add: quoted_item_def)

lemma star_quote:
  "q \<noteq> bslash \<Longrightarrow> rmatch (Star (quoted_item q n)) (i, q # rest, g) = [(i, q # rest, g)]"
  by (subst rmatch_Star) (simp add: quoted_item_quote)

lemma star_plain:
  "c \<noteq> q \<Longrightarrow> \<not> (c = bslash \<and> prefix [q] s) \<Longrightarrow>
   rmatch (Star (quoted_item q n)) (i, c # s, g) =
     rmatch (Star (quoted_item q n))
       (Suc i, s, capture n [c] (reset (groups (quoted_item q n)) g))
     @ [(i, c # s, g)]"
  by (subst rmatch_Star) (simp add: quoted_item_plain)

lemma star_escaped:
  "q \<noteq> bslash \<Longrightarrow>
   rmatch (Star (quoted_item q n)) (i, bslash # q # s, g) =
     rmatch (Star (quoted_item q n))
       (Suc (Suc i), s, capture n [bslash, q] (reset (groups (quoted_item q n)) g))
     @ rmatch (Star (quoted_item q n))
         (Suc i, q # s, capture n [bslash] (reset (groups (quoted_item q n)) g))
     @ [(i, bslash # q # s, g)]"
  by (subst rmatch_Star) (simp add: quoted_item_escaped)

lemma quoted_body_closing:
  "quoted_body q inner \<Longrightarrow> q \<noteq> bslash \<Longrightarrow>
   \<exists>g' tl. concat (map (rmatch (Chr q))
              (rmatch (Star (quoted_item q n)) (i, inner @ q # rest, g))) =
            (Suc (i + length inner), rest, g') # tl"
proof (induction q inner arbitrary: i g rule: quoted_body.induct)
  case (1 q)
  then show ?case by (simp add: star_quote)
next
  case (2 q c)
  then have c: "c \<noteq> q" "\<not> (c = bslash \<and> prefix [q] (q # rest))" by auto
  from star_plain [OF c, of n i g] obtain h where
    "rmatch (Star (quoted_item q n)) (i, c # q # rest, g) =
       rmatch (Star (quoted_item q n)) (Suc i, q # rest, h) @ [(i, c # q # rest, g)]"
    by blast
  with 2 show ?case by (simp add: star_quote)
next
  case (3 q c d ds)
  show ?case
  proof (cases "c = bslash \<and> d = q")
    case True
    from star_escaped [OF "3.prems"(2), of n i "ds @ q # rest" g] obtain h h' where
      e: "rmatch (Star (quoted_item q n)) (i, bslash # q # ds @ q # rest, g) =
         rmatch (Star (quoted_item q n)) (Suc (Suc i), ds @ q # rest, h)
         @ rmatch (Star (quoted_item q n)) (Suc i, q # ds @ q # rest, h')
         @ [(i, bslash # q # ds @ q # rest, g)]"
      by blast
    from True "3.prems" have "quoted_body q ds" by simp
    from "3.IH"(1) [OF True this "3.prems"(2), of "Suc (Suc i)" h] obtain g' tl where
      "concat (map (rmatch (Chr q))
         (rmatch (Star (quoted_item q n)) (Suc (Suc i), ds @ q # rest, h))) =
       (Suc (Suc (Suc i) + length ds), rest, g') # tl"
      by blast
    with True e show ?thesis by simp
  next
    case False
    with "3.prems" have c: "c \<noteq> q" "\<not> (c = bslash \<and> prefix [q] (d # ds @ q # rest))"
      and b: "quoted_body q (d # ds)" by auto
    from star_plain [OF c, of n i g] obtain h where
      e: "rmatch (Star (quoted_item q n)) (i, c # d # ds @ q # rest, g) =
         rmatch (Star (quoted_item q n)) (Suc i, d # ds @ q # rest, h)
         @ [(i, c # d # ds @ q # rest, g)]"
      by blast
    from "3.IH"(2) [OF False b "3.prems"(2), of "Suc i" h] obtain g' tl where
      "concat (map (rmatch (Chr q))
         (rmatch (Star (quoted_item q n)) (Suc i, (d # ds) @ q # rest, h))) =
       (Suc (Suc i + length (d # ds)), rest, g') # tl"
      by blast
    with e show ?thesis by simp
  qed
qed

lemma quoted_span_match:
  "quoted_body q inner \<Longrightarrow> q \<noteq> bslash \<Longrightarrow>
   \<exists>j g' tl. rmatch (quoted_span q n) (i, q # inner @ q # rest, g) = (j, rest, g') # tl"
proof -
  assume b: "quoted_body q inner" and q: "q \<noteq> bslash"
  have "rmatch (quoted_span q n) (i, q # inner @ q # rest, g) =
        concat (map (rmatch (Chr q))
          (rmatch (Star (quoted_item q n)) (Suc i, inner @ q # rest, g)))"
    by (simp add: quoted_span_def)
  with quoted_body_closing [OF b q, of n "Suc i" rest g] show ?thesis by auto
qed

lemma quoted_span_other:
  "c \<noteq> q \<Longrightarrow> rmatch (quoted_span q n) (i, c # s, g) = []"
  by (simp add: quoted_span_def)

lemma cmd_re_quoted:
  assumes "q = squote \<or> q = dquote" and "quoted_body q inner"
  shows "\<exists>j g' tl. rmatch cmd_re (i, q # inner @ q # rest, g) = (j, rest, g') # tl"
proof -
  from assms(1) have q: "q \<noteq> bslash" by auto
  from assms(1) show ?thesis
  proof
    assume s: "q = squote"
    from quoted_span_match [OF assms(2) q, of 2 i rest g] obtain j g' tl where
      "rmatch (quoted_span q 2) (i, q # inner @ q # rest, g) = (j, rest, g') # tl" by blast
    with s show ?thesis by (simp add: cmd_re_def del: rmatch.simps(7))
  next
    assume d: "q = dquote"
    from quoted_span_match [OF assms(2) q, of 3 i rest g] obtain j g' tl where
      "rmatch (quoted_span q 3) (i, q # inner @ q # rest, g) = (j, rest, g') # tl" by blast
    with d show ?thesis
      by (simp add: cmd_re_def quoted_span_other del: rmatch.simps(7))
  qed
qed

lemma match_g_quoted:
  assumes "q = squote \<or> q = dquote" and "quoted_body q inner"
  shows "match_g cmd_re pre (q # inner @ q # rest) =
           (q # inner @ [q]) # match_g cmd_re (pre @ q # inner @ [q]) rest"
proof -
  from cmd_re_quoted [OF assms, of "length pre" rest "[]"] obtain j g' tl where
    "rmatch cmd_re (length pre, q # inner @ q # rest, []) = (j, rest, g') # tl" by blast
  then show ?thesis by (subst match_g.simps) simp
qed

lemma match_g_end: "match_g cmd_re pre [] = []"
  by (subst match_g.simps) (simp add: cmd_re_end)

lemma includes_str_hd:
  "includes_str s n \<Longrightarrow> n \<noteq> [] \<Longrightarrow> hd n \<in> set s"
  by (induction s) (auto simp: prefix_Cons)

lemma literal_replace_absent:
  "\<not> includes_str s n \<Longrightarrow> literal_replace n w s = s"
  by (induction n w s rule: literal_replace.induct) auto

lemma plain_body:
  "q \<notin> set inner \<Longrightarrow> bslash \<notin> set inner \<Longrightarrow> quoted_body q inner"
  by (induction q inner rule: quoted_body.induct) auto

lemma includes_str_quoted:
  "includes_str (squote # inner @ [squote]) [bslash, dquote] = includes_str inner [bslash, dquote]"
  by (induction inner) auto


lemma splitCommandLine_eq:
  "splitCommandLine cmd =
     (case match_g cmd_re [] cmd of
        [] \<Rightarrow> Inl NoMatch
      | a # as \<Rightarrow>
          Inr (map (\<lambda>arg. unquoted (literal_replace [bslash, dquote] [dquote] arg)) (a # as)))"
  by (simp add: splitCommandLine_def strip_quotes_eq unescape_quotes_eq split: list.splits)

lemmas tokenizer_eval =
  match_g.simps rmatch_Star cmd_re_def quoted_span_def quoted_item_def word_chars_def
  capture_def reset_def

lemma match_g_example1:
  "match_g cmd_re [] (''build --target '' @ [dquote] @ ''My App'' @ [dquote] @ '' -j4'') =
     [''build'', ''--target'', [dquote] @ ''My App'' @ [dquote], ''-j4'']"
  by (simp add: tokenizer_eval)

lemma match_g_example2:
  "match_g cmd_re []
     (''echo '' @ [dquote] @ ''say '' @ [bslash, dquote] @ ''hi'' @ [bslash, dquote, dquote]) =
     [''echo'', [dquote] @ ''say '' @ [bslash, dquote] @ ''hi'' @ [bslash, dquote, dquote]]"
  by (simp add: tokenizer_eval)

lemma splitCommandLine_double_quoted:
  assumes "dquote \<notin> set body" "bslash \<notin> set body" "CHR 0x0A \<notin> set body" "CHR 0x0D \<notin> set body"
  shows "splitCommandLine (dquote # body @ [dquote]) = Inr [body]"
proof -
  from assms have b: "quoted_body dquote body" by (intro plain_body)
  have m: "match_g cmd_re [] (dquote # body @ [dquote]) = [dquote # body @ [dquote]]"
    using match_g_quoted [of dquote body "[]" "[]"] b by (simp add: match_g_end)
  from assms have "bslash \<notin> set (dquote # body @ [dquote])" by simp
  then have "\<not> includes_str (dquote # body @ [dquote]) [bslash, dquote]"
    using includes_str_hd [of "dquote # body @ [dquote]" "[bslash, dquote]"] by auto
  then have u: "literal_replace [bslash, dquote] [dquote] (dquote # body @ [dquote])
      = dquote # body @ [dquote]"
    by (rule literal_replace_absent)
  from assms have q: "unquoted (dquote # body @ [dquote]) = body"
    by (simp add: unquoted_def list_all_iff) metis
  show ?thesis by (simp only: splitCommandLine_eq m list.case list.map u q)
qed

lemma splitCommandLine_single_quoted:
  assumes "quoted_body squote body" "\<not> includes_str body [bslash, dquote]"
  shows "splitCommandLine (squote # body @ [squote]) = Inr [squote # body @ [squote]]"
proof -
  have m: "match_g cmd_re [] (squote # body @ [squote]) = [squote # body @ [squote]]"
    using match_g_quoted [of squote body "[]" "[]"] assms(1) by (simp add: match_g_end)
  from assms(2) have "\<not> includes_str (squote # body @ [squote]) [bslash, dquote]"
    by (simp only: includes_str_quoted simp_thms)
  then have u: "literal_replace [bslash, dquote] [dquote] (squote # body @ [squote])
      = squote # body @ [squote]"
    by (rule literal_replace_absent)
  have q: "unquoted (squote # body @ [squote]) = squote # body @ [squote]"
    by (simp add: unquoted_def)
  show ?thesis by (simp only: splitCommandLine_eq m list.case list.map u q)
qed

text \<open>
  What the tokenizer does. The two commands of the specification give the tokens it
  names. For every command, the tokens are the successive matches of the pattern, each
  with every backslash-quote pair \<^verbatim>\<open>\"\<close> replaced by a double quote and then, where
  the result starts and ends with a double quote and holds no line terminator in
  between, without these two quotes. A span in single or in double quotes that starts
  where the scan stands, and in which a backslash may escape the quote character, is
  one match. A span in double quotes alone gives its body as the token; a span in
  single quotes alone gives a token that keeps its quotes.
\<close>

lemma splitCommandLine_spans:
  "splitCommandLine (''build --target '' @ [dquote] @ ''My App'' @ [dquote] @ '' -j4'')
     = Inr [''build'', ''--target'', ''My App'', ''-j4'']
   \<and> splitCommandLine
        (''echo '' @ [dquote] @ ''say '' @ [bslash, dquote] @ ''hi'' @ [bslash, dquote, dquote])
     = Inr [''echo'', ''say '' @ [dquote] @ ''hi'' @ [dquote]]
   \<and> splitCommandLine cmd =
       (case match_g cmd_re [] cmd of
          [] \<Rightarrow> Inl NoMatch
        | a # as \<Rightarrow>
            Inr (map (\<lambda>arg. unquoted (literal_replace [bslash, dquote] [dquote] arg)) (a # as)))
   \<and> ((q = squote \<or> q = dquote) \<and> quoted_body q inner \<longrightarrow>
        match_g cmd_re pre (q # inner @ q # rest) =
          (q # inner @ [q]) # match_g cmd_re (pre @ q # inner @ [q]) rest)
   \<and> (dquote \<notin> set body \<and> bslash \<notin> set body \<and> CHR 0x0A \<notin> set body \<and> CHR 0x0D \<notin> set body
        \<longrightarrow> splitCommandLine (dquote # body @ [dquote]) = Inr [body])
   \<and> (quoted_body squote body \<and> \<not> includes_str body [bslash, dquote] \<longrightarrow>
        splitCommandLine (squote # body @ [squote]) = Inr [squote # body @ [squote]])"
proof -
  have a: "splitCommandLine (''build --target '' @ [dquote] @ ''My App'' @ [dquote] @ '' -j4'')
     = Inr [''build'', ''--target'', ''My App'', ''-j4'']"
    by (simp only: splitCommandLine_eq match_g_example1) (simp add: unquoted_def)
  have b: "splitCommandLine
        (''echo '' @ [dquote] @ ''say '' @ [bslash, dquote] @ ''hi'' @ [bslash, dquote, dquote])
     = Inr [''echo'', ''say '' @ [dquote] @ ''hi'' @ [dquote]]"
    by (simp only: splitCommandLine_eq match_g_example2) (simp add: unquoted_def)
  show ?thesis
    using a b splitCommandLine_eq [of cmd] match_g_quoted [of q inner pre rest]
      splitCommandLine_double_quoted [of body] splitCommandLine_single_quoted [of body]
    by blast
qed

lemma splitCommandLine_spans_example:
  "(dquote = squote \<or> dquote = dquote) \<and> quoted_body dquote ''My App''
   \<and> match_g cmd_re ''build '' (dquote # ''My App'' @ dquote # '' -j4'') =
        (dquote # ''My App'' @ [dquote])
        # match_g cmd_re (''build '' @ dquote # ''My App'' @ [dquote]) '' -j4''
   \<and> dquote \<notin> set ''a b'' \<and> bslash \<notin> set ''a b'' \<and> CHR 0x0A \<notin> set ''a b''
   \<and> CHR 0x0D \<notin> set ''a b''
   \<and> splitCommandLine (dquote # ''a b'' @ [dquote]) = Inr [''a b'']
   \<and> quoted_body squote ''a b'' \<and> \<not> includes_str ''a b'' [bslash, dquote]
   \<and> splitCommandLine (squote # ''a b'' @ [squote]) = Inr [squote # ''a b'' @ [squote]]"
  using splitCommandLine_spans [of "[]" dquote "''My App''" "''build ''" "'' -j4''" "''a b''"]
  by simp

text \<open>
  C3. The pattern takes a span in single quotes as one token, as it takes a span in
  double quotes, but the two replacements that follow name the double quote alone: the
  command \<^verbatim>\<open>"a b"\<close> gives the token \<^verbatim>\<open>a b\<close>, and the command \<^verbatim>\<open>'a b'\<close> gives the
  token \<^verbatim>\<open>'a b'\<close>, which keeps the quotes that the claim wants stripped.
\<close>

theorem splitCommandLine_single_quotes_kept:
  "splitCommandLine (dquote # ''a b'' @ [dquote]) = Inr [''a b'']
   \<and> splitCommandLine (squote # ''a b'' @ [squote]) = Inr [squote # ''a b'' @ [squote]]
   \<and> squote # ''a b'' @ [squote] \<noteq> ''a b''"
  using splitCommandLine_double_quoted [of "''a b''"] splitCommandLine_single_quoted [of "''a b''"]
  by simp

text \<open>
  A quoted span is one token only where it starts a token: a span that starts inside a
  word, as in \<^verbatim>\<open>-D"a b"\<close>, is split at its space.
\<close>

lemma splitCommandLine_inner_quote:
  "splitCommandLine (''-D'' @ [dquote] @ ''a b'' @ [dquote])
     = Inr [''-D'' @ [dquote] @ ''a'', ''b'' @ [dquote]]"
proof -
  have "match_g cmd_re [] (''-D'' @ [dquote] @ ''a b'' @ [dquote])
      = [''-D'' @ [dquote] @ ''a'', ''b'' @ [dquote]]"
    by (simp add: tokenizer_eval)
  then show ?thesis
    by (simp only: splitCommandLine_eq) (simp add: unquoted_def)
qed

end
